theory Spec2Isabelle
  imports Main "HOL-Library.AList"
begin

section \<open>Python values, exceptions and strings\<close>

text \<open>
  The module \<^verbatim>\<open>pyttman/core/communication/models/containers.py\<close> is dynamically
  typed: the content of a message may be any Python object, and the setter of
  \<^verbatim>\<open>content\<close> dispatches on its runtime class. The values are therefore a datatype
  with one constructor per class the code tests for, and exceptions are values of their
  own, returned on the left of a sum.

  A Python \<^verbatim>\<open>str\<close> is modelled as a \<^typ>\<open>string\<close>: the code points below 256.
\<close>

datatype exn =
    TypeError
  | ValueError
  | IndexError
  | AttributeError
  | Empty
  | OtherException string
  | NonException string

text \<open>
  \<^const>\<open>Empty\<close> is \<^verbatim>\<open>queue.Empty\<close>. \<^const>\<open>ValueError\<close> stands for the class and
  its subclasses (what \<^verbatim>\<open>except ValueError\<close> catches). \<^const>\<open>OtherException\<close> is
  any other subclass of \<^verbatim>\<open>Exception\<close>, by name; \<^const>\<open>NonException\<close> is a
  \<^verbatim>\<open>BaseException\<close> outside \<^verbatim>\<open>Exception\<close> (\<^verbatim>\<open>KeyboardInterrupt\<close>,
  \<^verbatim>\<open>SystemExit\<close>), which \<^verbatim>\<open>except Exception\<close> lets through.
\<close>

fun is_Exception :: "exn \<Rightarrow> bool" where
  "is_Exception (NonException n) = False"
| "is_Exception e = True"

datatype cls = MessageMixin | Message | Reply

text \<open>
  \<^item> \<open>PObj r s\<close> is an object of any class the code does not test for (a number, a set,
    a datetime, an instance of a user's class), given by what \<^verbatim>\<open>repr()\<close> and
    \<^verbatim>\<open>str()\<close> evaluate to on it: a string or a raised exception.
  \<^item> \<open>PInst c d\<close> is an instance of one of the module's classes with the instance
    dictionary \<open>d\<close>, in insertion order as Python keeps it.
\<close>

datatype pyval =
    PNone
  | PStr string
  | PList "pyval list"
  | PTuple "pyval list"
  | PDict "(pyval \<times> pyval) list"
  | PObj "exn + string" "exn + string"
  | PInst cls "(string \<times> pyval) list"

type_synonym attrs = "(string \<times> pyval) list"

subsection \<open>The string methods the module calls\<close>

text \<open>\<^verbatim>\<open>str.isspace\<close> of one character, on the code points below 256.\<close>

definition isspace :: "char \<Rightarrow> bool" where
  "isspace c = (c \<in> set [CHR 0x09, CHR 0x0A, CHR 0x0B, CHR 0x0C, CHR 0x0D,
     CHR 0x1C, CHR 0x1D, CHR 0x1E, CHR 0x1F, CHR 0x20, CHR 0x85, CHR 0xA0])"

text \<open>
  \<^verbatim>\<open>str.split()\<close> with no separator: the maximal runs of characters that are not
  whitespace. \<open>split_from w s\<close> scans \<open>s\<close> with the word \<open>w\<close> collected so far.
\<close>

fun split_from :: "string \<Rightarrow> string \<Rightarrow> string list" where
  "split_from w [] = (if w = [] then [] else [w])"
| "split_from w (c # cs) =
     (if isspace c then (if w = [] then split_from [] cs else w # split_from [] cs)
      else split_from (w @ [c]) cs)"

definition split :: "string \<Rightarrow> string list" where
  "split s = split_from [] s"

text \<open>
  \<^verbatim>\<open>str.splitlines(keepends=True)\<close>: a line ends after a line boundary, which stays
  in the line; CR LF is one boundary; there is no empty last line.
\<close>

definition is_linebreak :: "char \<Rightarrow> bool" where
  "is_linebreak c = (c \<in> set [CHR 0x0A, CHR 0x0B, CHR 0x0C, CHR 0x0D,
     CHR 0x1C, CHR 0x1D, CHR 0x1E, CHR 0x85])"

fun splitlines_from :: "string \<Rightarrow> string \<Rightarrow> string list" where
  "splitlines_from l [] = (if l = [] then [] else [l])"
| "splitlines_from l [c] = [l @ [c]]"
| "splitlines_from l (c # d # cs) =
     (if c = CHR 0x0D \<and> d = CHR 0x0A then (l @ [c, d]) # splitlines_from [] cs
      else if is_linebreak c then (l @ [c]) # splitlines_from [] (d # cs)
      else splitlines_from (l @ [c]) (d # cs))"

definition splitlines_keepends :: "string \<Rightarrow> string list" where
  "splitlines_keepends s = splitlines_from [] s"

text \<open>\<^verbatim>\<open>sep.join(xs)\<close> on strings.\<close>

fun join :: "string \<Rightarrow> string list \<Rightarrow> string" where
  "join sep [] = []"
| "join sep [x] = x"
| "join sep (x # y # ys) = x @ sep @ join sep (y # ys)"

text \<open>
  \<^verbatim>\<open>str.lower\<close> and the character classes of the pattern \<^verbatim>\<open>[^\w\s]\<close>, on the code
  points below 256: \<^verbatim>\<open>\w\<close> is an alphanumeric character or the underscore,
  \<^verbatim>\<open>\s\<close> is \<^const>\<open>isspace\<close>.
\<close>

definition lower_char :: "char \<Rightarrow> char" where
  "lower_char c =
     (let n = (of_char c :: nat)
      in if (65 \<le> n \<and> n \<le> 90) \<or> (192 \<le> n \<and> n \<le> 222 \<and> n \<noteq> 215)
         then char_of (n + 32) else c)"

definition lower :: "string \<Rightarrow> string" where
  "lower s = map lower_char s"

definition is_word :: "char \<Rightarrow> bool" where
  "is_word c =
     (let n = (of_char c :: nat)
      in (48 \<le> n \<and> n \<le> 57) \<or> (65 \<le> n \<and> n \<le> 90) \<or> n = 95 \<or> (97 \<le> n \<and> n \<le> 122)
         \<or> n \<in> set [170, 178, 179, 181, 185, 186, 188, 189, 190]
         \<or> (192 \<le> n \<and> n \<noteq> 215 \<and> n \<noteq> 247))"

text \<open>\<^verbatim>\<open>re.sub(r"[^\w\s]", "", i)\<close>\<close>

definition strip_symbols :: "string \<Rightarrow> string" where
  "strip_symbols i = filter (\<lambda>c. is_word c \<or> isspace c) i"

subsection \<open>\<^verbatim>\<open>repr()\<close> and \<^verbatim>\<open>str()\<close>\<close>

text \<open>
  \<^verbatim>\<open>repr\<close> of a string: in single quotes, or in double quotes when the string has a
  single quote and no double quote; the quote and the backslash are escaped, and
  so is every character that is not printable.
\<close>

definition backslash :: char where
  "backslash = CHR 0x5C"

definition is_printable :: "char \<Rightarrow> bool" where
  "is_printable c =
     (let n = (of_char c :: nat) in (32 \<le> n \<and> n < 127) \<or> (161 \<le> n \<and> n \<noteq> 173))"

definition hex_escape :: "char \<Rightarrow> string" where
  "hex_escape c =
     [backslash, CHR ''x'', ''0123456789abcdef'' ! (of_char c div 16),
      ''0123456789abcdef'' ! (of_char c mod 16)]"

definition repr_char :: "char \<Rightarrow> char \<Rightarrow> string" where
  "repr_char quote c =
     (if c = quote \<or> c = backslash then [backslash, c]
      else if c = CHR 0x09 then [backslash, CHR ''t'']
      else if c = CHR 0x0A then [backslash, CHR ''n'']
      else if c = CHR 0x0D then [backslash, CHR ''r'']
      else if is_printable c then [c]
      else hex_escape c)"

definition str_repr :: "string \<Rightarrow> string" where
  "str_repr s =
     (let quote = (if CHR 0x27 \<in> set s \<and> CHR 0x22 \<notin> set s then CHR 0x22 else CHR 0x27)
      in quote # concat (map (repr_char quote) s) @ [quote])"

text \<open>The results of a list of calls, up to the first one that raises.\<close>

fun sequence :: "(exn + 'a) list \<Rightarrow> exn + 'a list" where
  "sequence [] = Inr []"
| "sequence (Inl e # rs) = Inl e"
| "sequence (Inr x # rs) =
     (case sequence rs of Inl e \<Rightarrow> Inl e | Inr xs \<Rightarrow> Inr (x # xs))"

definition class_name :: "cls \<Rightarrow> string" where
  "class_name c = (case c of MessageMixin \<Rightarrow> ''MessageMixin'' | Message \<Rightarrow> ''Message''
     | Reply \<Rightarrow> ''Reply'')"

text \<open>
  \<^verbatim>\<open>repr\<close> of a list, a tuple and a dict renders the elements with \<^verbatim>\<open>repr\<close>;
  \<^verbatim>\<open>str\<close> of a string is the string, \<^verbatim>\<open>str\<close> of the containers and of
  \<^verbatim>\<open>None\<close> is their \<^verbatim>\<open>repr\<close>. An instance has the module's
  \<^verbatim>\<open>MessageMixin.__repr__\<close> (lines 37 to 40), whose f-string formats the attributes
  \<^verbatim>\<open>author\<close>, \<^verbatim>\<open>created\<close> and \<^verbatim>\<open>content\<close> (the property, stored as
  \<^verbatim>\<open>_content\<close>) with \<^verbatim>\<open>str\<close>, and no \<^verbatim>\<open>__str__\<close> of its own.
\<close>

fun py_repr :: "pyval \<Rightarrow> exn + string" and py_str :: "pyval \<Rightarrow> exn + string" where
  "py_repr PNone = Inr ''None''"
| "py_repr (PStr s) = Inr (str_repr s)"
| "py_repr (PList xs) =
     (case sequence (map py_repr xs) of Inl e \<Rightarrow> Inl e
      | Inr rs \<Rightarrow> Inr (''['' @ join '', '' rs @ '']''))"
| "py_repr (PTuple xs) =
     (case sequence (map py_repr xs) of Inl e \<Rightarrow> Inl e
      | Inr rs \<Rightarrow> Inr (''('' @ join '', '' rs @ (if length rs = 1 then '','' else []) @ '')''))"
| "py_repr (PDict kvs) =
     (case sequence (map (\<lambda>(k, v).
             case py_repr k of Inl e \<Rightarrow> Inl e
             | Inr a \<Rightarrow> (case py_repr v of Inl e \<Rightarrow> Inl e | Inr b \<Rightarrow> Inr (a @ '': '' @ b))) kvs) of
        Inl e \<Rightarrow> Inl e
      | Inr rs \<Rightarrow> Inr (''{'' @ join '', '' rs @ ''}''))"
| "py_repr (PObj r s) = r"
| "py_repr (PInst c d) =
     (case map_of (map (\<lambda>(k, v). (k, py_str v)) d) ''author'' of
        None \<Rightarrow> Inl AttributeError
      | Some (Inl e) \<Rightarrow> Inl e
      | Some (Inr a) \<Rightarrow>
     (case map_of (map (\<lambda>(k, v). (k, py_str v)) d) ''created'' of
        None \<Rightarrow> Inl AttributeError
      | Some (Inl e) \<Rightarrow> Inl e
      | Some (Inr t) \<Rightarrow>
     (case map_of (map (\<lambda>(k, v). (k, py_str v)) d) ''_content'' of
        None \<Rightarrow> Inl AttributeError
      | Some (Inl e) \<Rightarrow> Inl e
      | Some (Inr x) \<Rightarrow>
          Inr (class_name c @ ''(author='' @ a @ '', created='' @ t @ '', content='' @ x @ '')''))))"
| "py_str PNone = py_repr PNone"
| "py_str (PStr s) = Inr s"
| "py_str (PList xs) = py_repr (PList xs)"
| "py_str (PTuple xs) = py_repr (PTuple xs)"
| "py_str (PDict kvs) = py_repr (PDict kvs)"
| "py_str (PObj r s) = s"
| "py_str (PInst c d) = py_repr (PInst c d)"

section \<open>Messages\<close>

text \<open>
  An instance is modelled by its instance dictionary \<^typ>\<open>attrs\<close>: an assignment
  \<^verbatim>\<open>self.k = v\<close> replaces the value of \<open>k\<close> in place or adds \<open>k\<close> at the end
  (\<^const>\<open>AList.update\<close>), and a read of a name that is not there raises
  \<^verbatim>\<open>AttributeError\<close>. The name \<^verbatim>\<open>content\<close> is a property of the class: a read
  returns \<^verbatim>\<open>self._content\<close> and an assignment runs the setter below.
\<close>

definition getattr :: "attrs \<Rightarrow> string \<Rightarrow> exn + pyval" where
  "getattr self k =
     (case map_of self (if k = ''content'' then ''_content'' else k) of
        None \<Rightarrow> Inl AttributeError
      | Some v \<Rightarrow> Inr v)"

text \<open>
  The setter of \<^verbatim>\<open>content\<close> (lines 46 to 62). The last equation is the
  \<^verbatim>\<open>else\<close> branch, taken by every object of another class: \<^verbatim>\<open>except Exception\<close>
  turns what \<^verbatim>\<open>repr\<close> raises into a \<^verbatim>\<open>TypeError\<close>.
\<close>

fun content_setter :: "attrs \<Rightarrow> pyval \<Rightarrow> exn + attrs" where
  "content_setter self PNone = Inr (AList.update ''_content'' (PList [PStr ''None'']) self)"
| "content_setter self (PStr s) =
     Inr (AList.update ''_content'' (PList (map PStr (split s))) self)"
| "content_setter self (PList xs) =
     (case sequence (map py_str xs) of Inl e \<Rightarrow> Inl e
      | Inr ss \<Rightarrow> Inr (AList.update ''_content'' (PList (map PStr ss)) self))"
| "content_setter self (PTuple xs) =
     (case sequence (map py_str xs) of Inl e \<Rightarrow> Inl e
      | Inr ss \<Rightarrow> Inr (AList.update ''_content'' (PList (map PStr ss)) self))"
| "content_setter self (PDict kvs) =
     (case py_str (PDict kvs) of Inl e \<Rightarrow> Inl e
      | Inr s \<Rightarrow> Inr (AList.update ''_content'' (PList (map PStr (split s))) self))"
| "content_setter self val =
     (case py_repr val of
        Inl e \<Rightarrow> (if is_Exception e then Inl TypeError else Inl e)
      | Inr s \<Rightarrow> Inr (AList.update ''_content'' (PList (map PStr (split s))) self))"

text \<open>\<^verbatim>\<open>setattr(self, k, v)\<close>\<close>

definition setattr :: "attrs \<Rightarrow> string \<Rightarrow> pyval \<Rightarrow> exn + attrs" where
  "setattr self k v =
     (if k = ''content'' then content_setter self v else Inr (AList.update k v self))"

text \<open>The loop \<^verbatim>\<open>for k, v in kwargs.items(): setattr(self, k, v)\<close>\<close>

fun setattrs :: "attrs \<Rightarrow> (string \<times> pyval) list \<Rightarrow> exn + attrs" where
  "setattrs self [] = Inr self"
| "setattrs self ((k, v) # kwargs) =
     (case setattr self k v of Inl e \<Rightarrow> Inl e | Inr self' \<Rightarrow> setattrs self' kwargs)"

text \<open>
  \<^verbatim>\<open>MessageMixin.__init__\<close> (lines 23 to 35) on a fresh instance. \<open>now\<close> is the
  value \<^verbatim>\<open>datetime.now()\<close> returns at the call; \<open>kwargs\<close> are the keyword arguments
  in the order given (Python binds the keyword \<^verbatim>\<open>content\<close> to the parameter, and
  a name occurs once).
\<close>

definition MessageMixin_init :: "pyval \<Rightarrow> pyval \<Rightarrow> (string \<times> pyval) list \<Rightarrow> exn + attrs" where
  "MessageMixin_init now content kwargs =
     (let self = AList.update ''author'' (PStr ''anonymous'') [];
          self = AList.update ''created'' now self;
          self = AList.update ''client'' PNone self
      in case content_setter self content of
           Inl e \<Rightarrow> Inl e
         | Inr self \<Rightarrow>
             (case (case py_str content of
                      Inr s \<Rightarrow> Inr (PList (map PStr (splitlines_keepends s)))
                    | Inl e \<Rightarrow> (if e = ValueError then Inr PNone else Inl e)) of
                Inl e \<Rightarrow> Inl e
              | Inr lines \<Rightarrow> setattrs (AList.update ''content_with_format'' lines self) kwargs))"

text \<open>The call \<^verbatim>\<open>C(content, **kwargs)\<close> of a class \<open>C\<close> of the module.\<close>

definition construct :: "cls \<Rightarrow> pyval \<Rightarrow> pyval \<Rightarrow> (string \<times> pyval) list \<Rightarrow> exn + pyval" where
  "construct c now content kwargs =
     (case MessageMixin_init now content kwargs of
        Inl e \<Rightarrow> Inl e
      | Inr self \<Rightarrow> Inr (PInst c self))"

subsection \<open>The derived views\<close>

text \<open>
  Iteration, as \<^verbatim>\<open>for i in v\<close> and \<^verbatim>\<open>str.join\<close> do it. An object of another class
  is taken not to be iterable here; the module's classes define no \<^verbatim>\<open>__iter__\<close>.
\<close>

fun py_iter :: "pyval \<Rightarrow> exn + pyval list" where
  "py_iter (PStr s) = Inr (map (\<lambda>c. PStr [c]) s)"
| "py_iter (PList xs) = Inr xs"
| "py_iter (PTuple xs) = Inr xs"
| "py_iter (PDict kvs) = Inr (map fst kvs)"
| "py_iter v = Inl TypeError"

fun the_str :: "pyval \<Rightarrow> exn + string" where
  "the_str (PStr s) = Inr s"
| "the_str v = Inl TypeError"

text \<open>\<^verbatim>\<open>sep.join(v)\<close> on a value: every item has to be a string.\<close>

definition str_join :: "string \<Rightarrow> pyval \<Rightarrow> exn + string" where
  "str_join sep v =
     (case py_iter v of Inl e \<Rightarrow> Inl e
      | Inr items \<Rightarrow>
          (case sequence (map the_str items) of Inl e \<Rightarrow> Inl e
           | Inr ss \<Rightarrow> Inr (join sep ss)))"

text \<open>\<^verbatim>\<open>sanitized_content\<close> (lines 64 to 79)\<close>

definition sanitized_content :: "attrs \<Rightarrow> bool \<Rightarrow> exn + string list" where
  "sanitized_content self preserve_case =
     (case getattr self ''content'' of Inl e \<Rightarrow> Inl e
      | Inr v \<Rightarrow>
          (case py_iter v of Inl e \<Rightarrow> Inl e
           | Inr items \<Rightarrow>
               sequence (map (\<lambda>i. case the_str i of Inl e \<Rightarrow> Inl e
                   | Inr s \<Rightarrow> Inr (if preserve_case then strip_symbols s
                                    else lower (strip_symbols s))) items)))"

text \<open>\<^verbatim>\<open>as_str\<close> (lines 88 to 98)\<close>

definition as_str :: "attrs \<Rightarrow> bool \<Rightarrow> exn + string" where
  "as_str self sanitized =
     (if sanitized then
        (case sanitized_content self False of Inl e \<Rightarrow> Inl e
         | Inr out \<Rightarrow> Inr (join '' '' out))
      else
        (case getattr self ''content_with_format'' of Inl e \<Rightarrow> Inl e
         | Inr lines \<Rightarrow>
             if lines \<noteq> PNone then str_join [] lines
             else (case getattr self ''content'' of Inl e \<Rightarrow> Inl e
                   | Inr c \<Rightarrow> str_join '' '' c)))"

section \<open>The reply stream\<close>

text \<open>
  \<^verbatim>\<open>ReplyStream\<close> subclasses \<^verbatim>\<open>queue.Queue\<close> of the standard library and is made
  with \<^verbatim>\<open>maxsize = 0\<close>: the items are in a deque, \<^verbatim>\<open>_put\<close> appends on the right,
  \<^verbatim>\<open>_get\<close> is \<^verbatim>\<open>popleft\<close>, which raises \<^verbatim>\<open>IndexError\<close> on an empty deque, and
  \<^verbatim>\<open>put\<close> of an unbounded queue calls \<^verbatim>\<open>_put\<close> without waiting.
\<close>

record ReplyStream =
  queue :: "pyval list"

definition Queue_priv_put :: "ReplyStream \<Rightarrow> pyval \<Rightarrow> ReplyStream" where
  "Queue_priv_put self item = self\<lparr>queue := queue self @ [item]\<rparr>"

definition Queue_priv_get :: "ReplyStream \<Rightarrow> (exn + pyval) \<times> ReplyStream" where
  "Queue_priv_get self =
     (case queue self of
        [] \<Rightarrow> (Inl IndexError, self)
      | x # xs \<Rightarrow> (Inr x, self\<lparr>queue := xs\<rparr>))"

definition put :: "ReplyStream \<Rightarrow> pyval \<Rightarrow> ReplyStream" where
  "put self item = Queue_priv_put self item"

text \<open>
  The builtin \<^verbatim>\<open>map(f, xs)\<close> returns an iterator and calls \<open>f\<close> on nothing until
  the iterator is consumed: the map object is the pair of its arguments.
\<close>

definition py_map :: "('a \<Rightarrow> 'b) \<Rightarrow> 'a list \<Rightarrow> ('a \<Rightarrow> 'b) \<times> 'a list" where
  "py_map f xs = (f, xs)"

text \<open>
  \<^verbatim>\<open>ReplyStream.__init__\<close> (lines 148 to 151): the map object of line 151 is
  dropped, never consumed.
\<close>

definition ReplyStream_init :: "pyval list option \<Rightarrow> ReplyStream" where
  "ReplyStream_init collection =
     (let self = \<lparr>queue = []\<rparr>
      in case collection of
           None \<Rightarrow> self
         | Some c \<Rightarrow> (let dropped = py_map (Queue_priv_put self) c in self))"

definition isinstance_Reply :: "pyval \<Rightarrow> bool" where
  "isinstance_Reply v = (case v of PInst c d \<Rightarrow> c = Reply | _ \<Rightarrow> False)"

text \<open>
  \<^verbatim>\<open>ReplyStream.get\<close> (lines 153 to 158). The parameters \<open>block\<close> and
  \<open>timeout\<close> are not read. \<open>now\<close> is the clock at the call, for the
  \<^verbatim>\<open>Reply\<close> it may construct.
\<close>

definition get :: "pyval \<Rightarrow> ReplyStream \<Rightarrow> bool \<Rightarrow> pyval \<Rightarrow> (exn + pyval) \<times> ReplyStream" where
  "get now self block timeout =
     (case Queue_priv_get self of
        (Inl e, self') \<Rightarrow> (Inl e, self')
      | (Inr element, self') \<Rightarrow>
          (if \<not> isinstance_Reply element then construct Reply now element [] else Inr element,
           self'))"

section \<open>Notions the properties are stated with\<close>

text \<open>Consecutive calls of \<^verbatim>\<open>get()\<close>, one per clock reading, with what each call produced.\<close>

fun gets :: "pyval list \<Rightarrow> ReplyStream \<Rightarrow> (exn + pyval) list \<times> ReplyStream" where
  "gets [] self = ([], self)"
| "gets (now # nows) self =
     (case get now self True PNone of
        (r, self') \<Rightarrow> (case gets nows self' of (rs, self'') \<Rightarrow> (r # rs, self'')))"

text \<open>A string with a character that is not whitespace.\<close>

definition nonblank :: "string \<Rightarrow> bool" where
  "nonblank s = (\<exists>c\<in>set s. \<not> isspace c)"

text \<open>
  The inputs with something to tokenise: \<^verbatim>\<open>None\<close>, a string that is not blank, a
  list or tuple with an element, a dict, an instance of the module, and an object of
  another class whose \<^verbatim>\<open>repr\<close> is not blank.
\<close>

fun nonblank_input :: "pyval \<Rightarrow> bool" where
  "nonblank_input PNone = True"
| "nonblank_input (PStr s) = nonblank s"
| "nonblank_input (PList xs) = (xs \<noteq> [])"
| "nonblank_input (PTuple xs) = (xs \<noteq> [])"
| "nonblank_input (PDict kvs) = True"
| "nonblank_input (PObj r s) = (case r of Inl e \<Rightarrow> False | Inr t \<Rightarrow> nonblank t)"
| "nonblank_input (PInst c d) = True"

text \<open>The values that take the \<^verbatim>\<open>else\<close> branch of the setter.\<close>

fun other_class :: "pyval \<Rightarrow> bool" where
  "other_class (PObj r s) = True"
| "other_class (PInst c d) = True"
| "other_class v = False"

text \<open>A clock reading and an object whose \<^verbatim>\<open>__str__\<close> raises, for the examples.\<close>

definition sample_now :: pyval where
  "sample_now =
     PObj (Inr ''datetime.datetime(2021, 5, 4, 12, 0)'') (Inr ''2021-05-04 12:00:00'')"

definition sample_bad :: pyval where
  "sample_bad = PObj (Inr ''<Bad>'') (Inl (OtherException ''RuntimeError''))"

section \<open>Properties\<close>

subsection \<open>Strings\<close>

lemma concat_splitlines_from: "concat (splitlines_from l s) = l @ s"
  by (induction l s rule: splitlines_from.induct) auto

lemma concat_splitlines_keepends: "concat (splitlines_keepends s) = s"
  by (simp add: splitlines_keepends_def concat_splitlines_from)

lemma join_no_sep: "sep = [] \<Longrightarrow> join sep xs = concat xs"
  by (induction sep xs rule: join.induct) auto

lemma split_from_nonempty:
  "split_from w s \<noteq> [] \<longleftrightarrow> w \<noteq> [] \<or> (\<exists>c\<in>set s. \<not> isspace c)"
  by (induction w s rule: split_from.induct) auto

lemma split_nonempty: "split s \<noteq> [] \<longleftrightarrow> nonblank s"
  by (simp add: split_def nonblank_def split_from_nonempty)

lemma nonblank_Cons: "\<not> isspace c \<Longrightarrow> nonblank (c # s)"
  by (simp add: nonblank_def)

lemma sequence_the_str: "sequence (map the_str (map PStr xs)) = Inr xs"
  by (induction xs) auto

lemma sequence_length: "sequence rs = Inr xs \<Longrightarrow> length xs = length rs"
  by (induction rs arbitrary: xs rule: sequence.induct) (auto split: sum.splits)

lemma nonblank_dict: "py_str (PDict kvs) = Inr s \<Longrightarrow> nonblank s"
  by (auto simp: nonblank_Cons isspace_def split: sum.splits)

lemma nonblank_class_name: "nonblank (class_name c @ s)"
  by (cases c) (simp_all add: nonblank_Cons isspace_def class_name_def)

lemma nonblank_inst: "py_repr (PInst c d) = Inr s \<Longrightarrow> nonblank s"
  by (auto simp: nonblank_class_name split: option.splits sum.splits)

subsection \<open>Attributes\<close>

lemma content_setter_result:
  assumes "content_setter self v = Inr self'"
  shows "\<exists>ts. self' = AList.update ''_content'' (PList (map PStr ts)) self"
proof (cases v)
  case PNone
  then have "self' = AList.update ''_content'' (PList (map PStr [''None''])) self"
    using assms by simp
  then show ?thesis by blast
qed (use assms in \<open>auto split: sum.splits if_splits\<close>)

lemma setattr_frame:
  "setattr self k v = Inr self' \<Longrightarrow> j \<noteq> k \<Longrightarrow> (k = ''content'' \<longrightarrow> j \<noteq> ''_content'') \<Longrightarrow>
     map_of self' j = map_of self j"
  by (auto simp: setattr_def update_conv' dest!: content_setter_result split: if_splits)

lemma setattrs_frame:
  "setattrs self kwargs = Inr self' \<Longrightarrow> j \<notin> fst ` set kwargs \<Longrightarrow>
     (''content'' \<in> fst ` set kwargs \<longrightarrow> j \<noteq> ''_content'') \<Longrightarrow>
     map_of self' j = map_of self j"
proof (induction self kwargs rule: setattrs.induct)
  case (1 self)
  then show ?case by simp
next
  case (2 self k v kwargs)
  from "2.prems"(1) obtain s1 where s1: "setattr self k v = Inr s1"
    and rest: "setattrs s1 kwargs = Inr self'"
    by (auto split: sum.splits)
  have "map_of self' j = map_of s1 j"
    using "2.IH"[OF s1 rest] "2.prems"(2,3) by auto
  moreover have "map_of s1 j = map_of self j"
    using setattr_frame[OF s1, of j] "2.prems"(2,3) by auto
  ultimately show ?case by simp
qed

lemma setattrs_total:
  "''content'' \<notin> fst ` set kwargs \<Longrightarrow> \<exists>self'. setattrs self kwargs = Inr self'"
  by (induction self kwargs rule: setattrs.induct) (auto simp: setattr_def)

lemma setattrs_stores:
  "setattrs self kwargs = Inr self' \<Longrightarrow> distinct (map fst kwargs) \<Longrightarrow>
     ''content'' \<notin> fst ` set kwargs \<Longrightarrow> (k, v) \<in> set kwargs \<Longrightarrow> map_of self' k = Some v"
proof (induction self kwargs rule: setattrs.induct)
  case (1 self)
  then show ?case by simp
next
  case (2 self a b kwargs)
  from "2.prems"(1,3) have rest: "setattrs (AList.update a b self) kwargs = Inr self'"
    by (auto simp: setattr_def split: sum.splits if_splits)
  have s1: "setattr self a b = Inr (AList.update a b self)"
    using "2.prems"(3) by (auto simp: setattr_def)
  show ?case
  proof (cases "(k, v) = (a, b)")
    case True
    then have "k \<notin> fst ` set kwargs" using "2.prems"(2) by auto
    then have "map_of self' k = map_of (AList.update a b self) k"
      using setattrs_frame[OF rest, of k] "2.prems"(3) by auto
    then show ?thesis using True by (simp add: update_conv')
  next
    case False
    then have "(k, v) \<in> set kwargs" using "2.prems"(4) by auto
    then show ?thesis using "2.IH"[OF s1 rest] "2.prems"(2,3) by auto
  qed
qed

lemma init_cases:
  "MessageMixin_init now content kwargs =
     (case content_setter
             [(''author'', PStr ''anonymous''), (''created'', now), (''client'', PNone)] content of
        Inl e \<Rightarrow> Inl e
      | Inr self \<Rightarrow>
          (case py_str content of
             Inr s \<Rightarrow>
               setattrs (AList.update ''content_with_format''
                 (PList (map PStr (splitlines_keepends s))) self) kwargs
           | Inl e \<Rightarrow>
               if e = ValueError
               then setattrs (AList.update ''content_with_format'' PNone self) kwargs
               else Inl e))"
  by (simp add: MessageMixin_init_def split: sum.splits)

lemma init_Inr:
  assumes "MessageMixin_init now content kwargs = Inr self"
  obtains self1 where
    "content_setter [(''author'', PStr ''anonymous''), (''created'', now), (''client'', PNone)] content = Inr self1"
    "setattrs (AList.update ''content_with_format''
        (case py_str content of Inr s \<Rightarrow> PList (map PStr (splitlines_keepends s)) | Inl e \<Rightarrow> PNone) self1) kwargs = Inr self"
  using assms unfolding init_cases by (auto split: sum.splits if_splits)

lemma content_setter_nonblank:
  assumes "content_setter self v = Inr self'" and "nonblank_input v"
  shows "\<exists>ts. self' = AList.update ''_content'' (PList (map PStr ts)) self \<and> ts \<noteq> []"
proof (cases v)
  case PNone
  then have "self' = AList.update ''_content'' (PList (map PStr [''None''])) self \<and> [''None''] \<noteq> []"
    using assms by simp
  then show ?thesis by blast
next
  case (PStr s)
  then have "self' = AList.update ''_content'' (PList (map PStr (split s))) self \<and> split s \<noteq> []"
    using assms by (simp add: split_nonempty)
  then show ?thesis by blast
next
  case (PList xs)
  then obtain ss where "sequence (map py_str xs) = Inr ss"
    and "self' = AList.update ''_content'' (PList (map PStr ss)) self"
    using assms by (auto split: sum.splits)
  moreover from this PList assms(2) have "ss \<noteq> []" by (auto dest!: sequence_length)
  ultimately show ?thesis by blast
next
  case (PTuple xs)
  then obtain ss where "sequence (map py_str xs) = Inr ss"
    and "self' = AList.update ''_content'' (PList (map PStr ss)) self"
    using assms by (auto split: sum.splits)
  moreover from this PTuple assms(2) have "ss \<noteq> []" by (auto dest!: sequence_length)
  ultimately show ?thesis by blast
next
  case (PDict kvs)
  then obtain s where s: "py_str (PDict kvs) = Inr s"
    and r: "self' = AList.update ''_content'' (PList (map PStr (split s))) self"
    using assms by (auto split: sum.splits)
  from nonblank_dict[OF s] have "split s \<noteq> []" by (simp add: split_nonempty)
  with r show ?thesis by blast
next
  case (PObj r s)
  then obtain t where "r = Inr t" and "nonblank t"
    using assms(2) by (auto split: sum.splits)
  with PObj assms(1)
  have "self' = AList.update ''_content'' (PList (map PStr (split t))) self \<and> split t \<noteq> []"
    by (simp add: split_nonempty)
  then show ?thesis by blast
next
  case (PInst c d)
  then obtain s where s: "py_repr (PInst c d) = Inr s"
    and r: "self' = AList.update ''_content'' (PList (map PStr (split s))) self"
    using assms by (auto split: sum.splits if_splits)
  from nonblank_inst[OF s] have "split s \<noteq> []" by (simp add: split_nonempty)
  with r show ?thesis by blast
qed

lemma setattr_keeps_tokens:
  assumes "setattr self k v = Inr self'" and "k \<noteq> ''_content''"
    and "\<exists>ts. map_of self ''_content'' = Some (PList (map PStr ts)) \<and> (strict \<longrightarrow> ts \<noteq> [])"
    and "strict \<longrightarrow> k \<noteq> ''content''"
  shows "\<exists>ts. map_of self' ''_content'' = Some (PList (map PStr ts)) \<and> (strict \<longrightarrow> ts \<noteq> [])"
proof (cases "k = ''content''")
  case True
  then have "content_setter self v = Inr self'" using assms(1) by (simp add: setattr_def)
  from content_setter_result[OF this] obtain ts where
    "self' = AList.update ''_content'' (PList (map PStr ts)) self" by blast
  then have "map_of self' ''_content'' = Some (PList (map PStr ts))" by (simp add: update_conv')
  then show ?thesis using True assms(4) by blast
next
  case False
  then have "map_of self' ''_content'' = map_of self ''_content''"
    using setattr_frame[OF assms(1), of "''_content''"] assms(2) by auto
  then show ?thesis using assms(3) by simp
qed

lemma setattrs_keeps_tokens:
  assumes "setattrs self kwargs = Inr self'" and "''_content'' \<notin> fst ` set kwargs"
    and "\<exists>ts. map_of self ''_content'' = Some (PList (map PStr ts)) \<and> (strict \<longrightarrow> ts \<noteq> [])"
    and "strict \<longrightarrow> ''content'' \<notin> fst ` set kwargs"
  shows "\<exists>ts. map_of self' ''_content'' = Some (PList (map PStr ts)) \<and> (strict \<longrightarrow> ts \<noteq> [])"
  using assms
proof (induction self kwargs rule: setattrs.induct)
  case (1 self)
  then show ?case by simp
next
  case (2 self k v kwargs)
  from "2.prems"(1) obtain s1 where s1: "setattr self k v = Inr s1"
    and rest: "setattrs s1 kwargs = Inr self'"
    by (auto split: sum.splits)
  have "\<exists>ts. map_of s1 ''_content'' = Some (PList (map PStr ts)) \<and> (strict \<longrightarrow> ts \<noteq> [])"
    using setattr_keeps_tokens[OF s1 _ "2.prems"(3)] "2.prems"(2,4) by auto
  then show ?case using "2.IH"[OF s1 rest] "2.prems"(2,4) by auto
qed

subsection \<open>Messages\<close>

text \<open>
  C5. Whatever the class of the content, when \<^verbatim>\<open>__init__\<close> returns, the tokens
  (the property \<^verbatim>\<open>content\<close>, stored as \<^verbatim>\<open>_content\<close>) are a list whose elements
  are all strings: not \<^verbatim>\<open>None\<close> and not the raw input. The keyword arguments are
  any that do not assign the private attribute \<^verbatim>\<open>_content\<close> itself.
\<close>

theorem tokens_are_strings:
  assumes "MessageMixin_init now content kwargs = Inr self"
    and "''_content'' \<notin> fst ` set kwargs"
  shows "\<exists>ts. getattr self ''content'' = Inr (PList (map PStr ts))"
proof -
  from assms(1) obtain self1 lines where
    s1: "content_setter
           [(''author'', PStr ''anonymous''), (''created'', now), (''client'', PNone)] content
         = Inr self1"
    and rest: "setattrs (AList.update ''content_with_format'' lines self1) kwargs = Inr self"
    by (rule init_Inr)
  from content_setter_result[OF s1] obtain ts where
    "map_of (AList.update ''content_with_format'' lines self1) ''_content''
       = Some (PList (map PStr ts))"
    by (auto simp: update_conv')
  then have "\<exists>ts. map_of (AList.update ''content_with_format'' lines self1) ''_content''
      = Some (PList (map PStr ts)) \<and> (False \<longrightarrow> ts \<noteq> [])" by blast
  from setattrs_keeps_tokens[OF rest assms(2) this]
  show ?thesis by (auto simp: getattr_def)
qed

theorem tokens_are_strings_witness:
  "MessageMixin_init sample_now (PTuple [PNone, PObj (Inr ''7'') (Inr ''7'')])
       [(''author'', PStr ''bob'')] =
     Inr [(''author'', PStr ''bob''), (''created'', sample_now), (''client'', PNone),
          (''_content'', PList [PStr ''None'', PStr ''7'']),
          (''content_with_format'', PList [PStr ''(None, 7)''])]
   \<and> ''_content'' \<notin> fst ` set [(''author'', PStr ''bob'')]
   \<and> (\<exists>ts. getattr [(''author'', PStr ''bob''), (''created'', sample_now), (''client'', PNone),
          (''_content'', PList [PStr ''None'', PStr ''7'']),
          (''content_with_format'', PList [PStr ''(None, 7)''])] ''content''
        = Inr (PList (map PStr ts)))"
proof -
  have run: "MessageMixin_init sample_now (PTuple [PNone, PObj (Inr ''7'') (Inr ''7'')])
       [(''author'', PStr ''bob'')] =
     Inr [(''author'', PStr ''bob''), (''created'', sample_now), (''client'', PNone),
          (''_content'', PList [PStr ''None'', PStr ''7'']),
          (''content_with_format'', PList [PStr ''(None, 7)''])]"
    by code_simp
  have keys: "''_content'' \<notin> fst ` set [(''author'', PStr ''bob'')]" by simp
  from tokens_are_strings[OF run keys] run keys show ?thesis by blast
qed

text \<open>
  C6, as amended. The claim says that no input other than an empty one is left with zero
  tokens. What holds: when the input is \<^verbatim>\<open>None\<close>, a string with a character that
  is not whitespace, a list or tuple with an element, a dict, an instance of the
  module, or an object of another class whose \<^verbatim>\<open>repr\<close> has a character that is not
  whitespace (\<^const>\<open>nonblank_input\<close>), and the keyword arguments do not assign the
  tokens, a construction that succeeds leaves at least one token.
\<close>

theorem nonblank_input_gives_tokens:
  assumes "MessageMixin_init now content kwargs = Inr self"
    and "''_content'' \<notin> fst ` set kwargs" and "''content'' \<notin> fst ` set kwargs"
    and "nonblank_input content"
  shows "\<exists>ts. getattr self ''content'' = Inr (PList (map PStr ts)) \<and> ts \<noteq> []"
proof -
  from assms(1) obtain self1 lines where
    s1: "content_setter
           [(''author'', PStr ''anonymous''), (''created'', now), (''client'', PNone)] content
         = Inr self1"
    and rest: "setattrs (AList.update ''content_with_format'' lines self1) kwargs = Inr self"
    by (rule init_Inr)
  from content_setter_nonblank[OF s1 assms(4)] obtain ts where
    "map_of (AList.update ''content_with_format'' lines self1) ''_content''
       = Some (PList (map PStr ts))" and "ts \<noteq> []"
    by (auto simp: update_conv')
  then have "\<exists>ts. map_of (AList.update ''content_with_format'' lines self1) ''_content''
      = Some (PList (map PStr ts)) \<and> (True \<longrightarrow> ts \<noteq> [])" by blast
  from setattrs_keeps_tokens[OF rest assms(2) this] assms(3)
  show ?thesis by (auto simp: getattr_def)
qed

theorem nonblank_input_gives_tokens_witness:
  "MessageMixin_init sample_now (PStr ''  hello   world '') [] =
     Inr [(''author'', PStr ''anonymous''), (''created'', sample_now), (''client'', PNone),
          (''_content'', PList [PStr ''hello'', PStr ''world'']),
          (''content_with_format'', PList [PStr ''  hello   world ''])]
   \<and> nonblank_input (PStr ''  hello   world '')
   \<and> (\<exists>ts. getattr [(''author'', PStr ''anonymous''), (''created'', sample_now), (''client'', PNone),
          (''_content'', PList [PStr ''hello'', PStr ''world'']),
          (''content_with_format'', PList [PStr ''  hello   world ''])] ''content''
        = Inr (PList (map PStr ts)) \<and> ts \<noteq> [])"
proof -
  have run: "MessageMixin_init sample_now (PStr ''  hello   world '') [] =
     Inr [(''author'', PStr ''anonymous''), (''created'', sample_now), (''client'', PNone),
          (''_content'', PList [PStr ''hello'', PStr ''world'']),
          (''content_with_format'', PList [PStr ''  hello   world ''])]"
    by code_simp
  have k1: "''_content'' \<notin> fst ` set ([] :: (string \<times> pyval) list)" by simp
  have k2: "''content'' \<notin> fst ` set ([] :: (string \<times> pyval) list)" by simp
  have nb: "nonblank_input (PStr ''  hello   world '')" by code_simp
  from nonblank_input_gives_tokens[OF run k1 k2 nb] run nb show ?thesis by blast
qed

text \<open>
  C6, as stated, fails on a string that is not empty and holds whitespace only:
  \<^verbatim>\<open>Message(" ")\<close> has no token, since \<^verbatim>\<open>" ".split()\<close> is the empty list.
\<close>

theorem blank_string_gives_no_tokens:
  "MessageMixin_init sample_now (PStr '' '') [] =
     Inr [(''author'', PStr ''anonymous''), (''created'', sample_now), (''client'', PNone),
          (''_content'', PList []), (''content_with_format'', PList [PStr '' ''])]"
  by code_simp

text \<open>
  C7, as amended. The claim says \<^verbatim>\<open>content_with_format\<close> is set for a string input
  only. What the code does: for every input whose \<^verbatim>\<open>str()\<close> returns,
  \<^verbatim>\<open>content_with_format\<close> is the list of the lines of \<^verbatim>\<open>str(content)\<close>, each with
  its terminator (so that the lines concatenate to \<^verbatim>\<open>str(content)\<close>, which for a
  string input is the input itself); it is \<^verbatim>\<open>None\<close> only when \<^verbatim>\<open>str(content)\<close>
  raises \<^verbatim>\<open>ValueError\<close>. The keyword arguments are any that do not assign
  \<^verbatim>\<open>content_with_format\<close>.
\<close>

theorem content_with_format_is_lines_of_str:
  assumes "MessageMixin_init now content kwargs = Inr self"
    and "''content_with_format'' \<notin> fst ` set kwargs"
  shows "getattr self ''content_with_format'' =
     Inr (case py_str content of
            Inr s \<Rightarrow> PList (map PStr (splitlines_keepends s))
          | Inl e \<Rightarrow> PNone)
     \<and> (\<forall>s. py_str content = Inr s \<longrightarrow> concat (splitlines_keepends s) = s)
     \<and> (\<forall>e. py_str content = Inl e \<longrightarrow> e = ValueError)"
proof -
  from assms(1) obtain self1 where
    s1: "content_setter
           [(''author'', PStr ''anonymous''), (''created'', now), (''client'', PNone)] content
         = Inr self1"
    and rest: "setattrs (AList.update ''content_with_format''
        (case py_str content of Inr s \<Rightarrow> PList (map PStr (splitlines_keepends s))
         | Inl e \<Rightarrow> PNone) self1) kwargs = Inr self"
    by (rule init_Inr)
  have "map_of self ''content_with_format'' = Some (case py_str content of
            Inr s \<Rightarrow> PList (map PStr (splitlines_keepends s)) | Inl e \<Rightarrow> PNone)"
    using setattrs_frame[OF rest, of "''content_with_format''"] assms(2)
    by (simp add: update_conv')
  moreover have "\<forall>e. py_str content = Inl e \<longrightarrow> e = ValueError"
    using assms(1) unfolding init_cases by (auto split: sum.splits if_splits)
  ultimately show ?thesis by (simp add: getattr_def concat_splitlines_keepends)
qed

theorem content_with_format_is_lines_of_str_witness:
  "MessageMixin_init sample_now (PList [PNone]) [] =
     Inr [(''author'', PStr ''anonymous''), (''created'', sample_now), (''client'', PNone),
          (''_content'', PList [PStr ''None'']), (''content_with_format'', PList [PStr ''[None]''])]
   \<and> getattr [(''author'', PStr ''anonymous''), (''created'', sample_now), (''client'', PNone),
          (''_content'', PList [PStr ''None'']), (''content_with_format'', PList [PStr ''[None]''])]
        ''content_with_format'' =
      Inr (case py_str (PList [PNone]) of
            Inr s \<Rightarrow> PList (map PStr (splitlines_keepends s))
          | Inl e \<Rightarrow> PNone)
   \<and> py_str (PList [PNone]) = Inr ''[None]''"
proof -
  have run: "MessageMixin_init sample_now (PList [PNone]) [] =
     Inr [(''author'', PStr ''anonymous''), (''created'', sample_now), (''client'', PNone),
          (''_content'', PList [PStr ''None'']), (''content_with_format'', PList [PStr ''[None]''])]"
    by code_simp
  have k: "''content_with_format'' \<notin> fst ` set ([] :: (string \<times> pyval) list)" by simp
  have r: "py_str (PList [PNone]) = Inr ''[None]''" by code_simp
  from content_with_format_is_lines_of_str[OF run k] run r show ?thesis by blast
qed

text \<open>
  C7, as stated, fails on the absent input: \<^verbatim>\<open>Message()\<close> has
  \<^verbatim>\<open>content_with_format == ["None"]\<close>, the lines of \<^verbatim>\<open>str(None)\<close>, not
  \<^verbatim>\<open>None\<close>.
\<close>

theorem None_has_content_with_format:
  "MessageMixin_init sample_now PNone [] =
     Inr [(''author'', PStr ''anonymous''), (''created'', sample_now), (''client'', PNone),
          (''_content'', PList [PStr ''None'']), (''content_with_format'', PList [PStr ''None''])]"
  by code_simp

lemma content_setter_Inl:
  assumes "content_setter self content = Inl x"
  shows "(other_class content \<and> (\<exists>e. py_repr content = Inl e \<and> is_Exception e \<and> x = TypeError))
     \<or> (other_class content \<and> py_repr content = Inl x \<and> \<not> is_Exception x)
     \<or> (\<exists>xs. (content = PList xs \<or> content = PTuple xs) \<and> sequence (map py_str xs) = Inl x)
     \<or> (\<exists>kvs. content = PDict kvs \<and> py_str content = Inl x)"
proof (cases content)
  case (PList xs)
  then show ?thesis using assms by (auto split: sum.splits)
next
  case (PTuple xs)
  then show ?thesis using assms by (auto split: sum.splits)
next
  case (PDict kvs)
  then show ?thesis using assms by (auto split: sum.splits)
next
  case (PObj r s)
  then show ?thesis using assms by (auto split: sum.splits if_splits)
next
  case (PInst c d)
  then obtain e where e: "py_repr content = Inl e" and x: "x = (if is_Exception e then TypeError else e)"
    using assms by (auto split: sum.splits if_splits)
  then show ?thesis using PInst by (cases "is_Exception e") auto
qed (use assms in auto)

lemma content_setter_Inr_any:
  assumes "content_setter self content = Inr self'"
  shows "\<exists>self2'. content_setter self2 content = Inr self2'"
  using assms by (cases content) (auto split: sum.splits if_splits)

lemma content_setter_Inl_any:
  assumes "content_setter self content = Inl x"
  shows "content_setter self2 content = Inl x"
  using assms by (cases content) (auto split: sum.splits if_splits)

lemma init_Inl:
  assumes "MessageMixin_init now content kwargs = Inl x" and "''content'' \<notin> fst ` set kwargs"
  shows "content_setter [(''author'', PStr ''anonymous''), (''created'', now), (''client'', PNone)]
           content = Inl x
     \<or> (py_str content = Inl x \<and> x \<noteq> ValueError)"
proof -
  have "\<And>self. setattrs self kwargs \<noteq> Inl x"
    using setattrs_total[OF assms(2)] by (metis sum.distinct(1))
  then show ?thesis using assms(1) unfolding init_cases
    by (auto split: sum.splits if_splits)
qed

lemma construct_setter_Inl:
  assumes "content_setter self content = Inl x"
  shows "construct c now content kwargs = Inl x"
  using content_setter_Inl_any[OF assms] by (simp add: construct_def init_cases)

text \<open>
  C8, as amended. The \<^verbatim>\<open>TypeError\<close> of lines 60 to 62 is what the specification
  calls \<^verbatim>\<open>TypeConversionError\<close>. What holds, conjunct by conjunct:
  \<^item> an object of another class (the \<^verbatim>\<open>else\<close> branch) whose \<^verbatim>\<open>repr\<close> raises an
    \<^verbatim>\<open>Exception\<close> makes the constructor raise \<^verbatim>\<open>TypeError\<close>, and no instance is
    returned;
  \<^item> what \<^verbatim>\<open>repr\<close> raises there outside \<^verbatim>\<open>Exception\<close> passes through
    \<^verbatim>\<open>except Exception\<close> as it is;
  \<^item> construction from \<^verbatim>\<open>None\<close> or from a string returns an instance;
  \<^item> the first exception that \<^verbatim>\<open>str()\<close> raises on the elements of a list or tuple
    (line 53) leaves the constructor as it was raised, whatever its class;
  \<^item> so does an exception that \<^verbatim>\<open>str()\<close> raises on a dict (line 55);
  \<^item> when the setter has returned, an exception other than \<^verbatim>\<open>ValueError\<close> that
    \<^verbatim>\<open>str(content)\<close> raises on line 30 leaves the constructor as it was raised;
  \<^item> a \<^verbatim>\<open>ValueError\<close> of \<^verbatim>\<open>str(content)\<close> on line 30 is caught by line 31, and
    the constructor returns an instance;
  \<^item> the constructor fails in no other way.
  So \<^verbatim>\<open>TypeError\<close> is not the only kind of error. Where a conjunct needs the
  constructor to go through the loop over the keyword arguments, these do not name
  \<^verbatim>\<open>content\<close>, which Python binds to the parameter.
\<close>

theorem construct_errors:
  "(other_class content \<and> py_repr content = Inl e \<and> is_Exception e \<longrightarrow>
      construct c now content kwargs = Inl TypeError)
   \<and> (other_class content \<and> py_repr content = Inl x \<and> \<not> is_Exception x \<longrightarrow>
      construct c now content kwargs = Inl x)
   \<and> (''content'' \<notin> fst ` set kwargs \<longrightarrow>
        (\<exists>self. construct c now PNone kwargs = Inr (PInst c self))
      \<and> (\<exists>self. construct c now (PStr s) kwargs = Inr (PInst c self)))
   \<and> ((content = PList xs \<or> content = PTuple xs) \<and> sequence (map py_str xs) = Inl x \<longrightarrow>
      construct c now content kwargs = Inl x)
   \<and> (content = PDict kvs \<and> py_str content = Inl x \<longrightarrow>
      construct c now content kwargs = Inl x)
   \<and> (content_setter self content = Inr self' \<and> py_str content = Inl x \<and> x \<noteq> ValueError \<longrightarrow>
      construct c now content kwargs = Inl x)
   \<and> (content_setter self content = Inr self' \<and> py_str content = Inl ValueError
        \<and> ''content'' \<notin> fst ` set kwargs \<longrightarrow>
      (\<exists>d. construct c now content kwargs = Inr (PInst c d)))
   \<and> (construct c now content kwargs = Inl x \<and> ''content'' \<notin> fst ` set kwargs \<longrightarrow>
        (other_class content \<and> (\<exists>e. py_repr content = Inl e \<and> is_Exception e \<and> x = TypeError))
      \<or> (other_class content \<and> py_repr content = Inl x \<and> \<not> is_Exception x)
      \<or> (\<exists>xs. (content = PList xs \<or> content = PTuple xs) \<and> sequence (map py_str xs) = Inl x)
      \<or> (\<exists>kvs. content = PDict kvs \<and> py_str content = Inl x)
      \<or> (py_str content = Inl x \<and> x \<noteq> ValueError))"
proof (intro conjI impI)
  assume "other_class content \<and> py_repr content = Inl e \<and> is_Exception e"
  then have "content_setter [] content = Inl TypeError"
    by (cases content) auto
  then show "construct c now content kwargs = Inl TypeError"
    by (rule construct_setter_Inl)
next
  assume "other_class content \<and> py_repr content = Inl x \<and> \<not> is_Exception x"
  then have "content_setter [] content = Inl x"
    by (cases content) auto
  then show "construct c now content kwargs = Inl x"
    by (rule construct_setter_Inl)
next
  assume k: "''content'' \<notin> fst ` set kwargs"
  from setattrs_total[OF k] obtain d where
    "setattrs (AList.update ''content_with_format'' (PList (map PStr (splitlines_keepends ''None'')))
       (AList.update ''_content'' (PList [PStr ''None''])
         [(''author'', PStr ''anonymous''), (''created'', now), (''client'', PNone)])) kwargs = Inr d"
    by blast
  then have "construct c now PNone kwargs = Inr (PInst c d)"
    by (simp add: construct_def init_cases)
  then show "\<exists>self. construct c now PNone kwargs = Inr (PInst c self)" by blast
next
  assume k: "''content'' \<notin> fst ` set kwargs"
  from setattrs_total[OF k] obtain d where
    "setattrs (AList.update ''content_with_format'' (PList (map PStr (splitlines_keepends s)))
       (AList.update ''_content'' (PList (map PStr (split s)))
         [(''author'', PStr ''anonymous''), (''created'', now), (''client'', PNone)])) kwargs = Inr d"
    by blast
  then have "construct c now (PStr s) kwargs = Inr (PInst c d)"
    by (simp add: construct_def init_cases)
  then show "\<exists>self. construct c now (PStr s) kwargs = Inr (PInst c self)" by blast
next
  assume "(content = PList xs \<or> content = PTuple xs) \<and> sequence (map py_str xs) = Inl x"
  then have "content_setter [] content = Inl x" by auto
  then show "construct c now content kwargs = Inl x"
    by (rule construct_setter_Inl)
next
  assume "content = PDict kvs \<and> py_str content = Inl x"
  then have "content_setter [] content = Inl x" by auto
  then show "construct c now content kwargs = Inl x"
    by (rule construct_setter_Inl)
next
  assume a: "content_setter self content = Inr self' \<and> py_str content = Inl x \<and> x \<noteq> ValueError"
  then obtain s1 where "content_setter
      [(''author'', PStr ''anonymous''), (''created'', now), (''client'', PNone)] content = Inr s1"
    using content_setter_Inr_any by blast
  then show "construct c now content kwargs = Inl x"
    using a by (simp add: construct_def init_cases)
next
  assume a: "content_setter self content = Inr self' \<and> py_str content = Inl ValueError
     \<and> ''content'' \<notin> fst ` set kwargs"
  then obtain s1 where s1: "content_setter
      [(''author'', PStr ''anonymous''), (''created'', now), (''client'', PNone)] content = Inr s1"
    using content_setter_Inr_any by blast
  from a setattrs_total obtain d where
    "setattrs (AList.update ''content_with_format'' PNone s1) kwargs = Inr d"
    by blast
  then have "construct c now content kwargs = Inr (PInst c d)"
    using a s1 by (simp add: construct_def init_cases)
  then show "\<exists>d. construct c now content kwargs = Inr (PInst c d)" by blast
next
  assume a: "construct c now content kwargs = Inl x \<and> ''content'' \<notin> fst ` set kwargs"
  then have "MessageMixin_init now content kwargs = Inl x"
    by (auto simp: construct_def split: sum.splits)
  from init_Inl[OF this] a
  have "content_setter [(''author'', PStr ''anonymous''), (''created'', now), (''client'', PNone)]
          content = Inl x
     \<or> (py_str content = Inl x \<and> x \<noteq> ValueError)" by simp
  then show "(other_class content \<and> (\<exists>e. py_repr content = Inl e \<and> is_Exception e \<and> x = TypeError))
      \<or> (other_class content \<and> py_repr content = Inl x \<and> \<not> is_Exception x)
      \<or> (\<exists>xs. (content = PList xs \<or> content = PTuple xs) \<and> sequence (map py_str xs) = Inl x)
      \<or> (\<exists>kvs. content = PDict kvs \<and> py_str content = Inl x)
      \<or> (py_str content = Inl x \<and> x \<noteq> ValueError)"
    using content_setter_Inl by blast
qed

theorem construct_errors_witness:
  "construct Message sample_now (PObj (Inl (OtherException ''KeyError'')) (Inr ''x'')) []
       = Inl TypeError
   \<and> construct Message sample_now (PObj (Inl (NonException ''KeyboardInterrupt'')) (Inr ''x'')) []
       = Inl (NonException ''KeyboardInterrupt'')
   \<and> (\<exists>self. construct Message sample_now PNone [] = Inr (PInst Message self))
   \<and> (\<exists>self. construct Message sample_now (PStr ''hi'') [] = Inr (PInst Message self))
   \<and> sequence (map py_str [sample_bad]) = Inl (OtherException ''RuntimeError'')
   \<and> construct Message sample_now (PTuple [sample_bad]) [] = Inl (OtherException ''RuntimeError'')
   \<and> py_str (PDict [(PStr ''k'', PObj (Inl ValueError) (Inr ''v''))]) = Inl ValueError
   \<and> construct Message sample_now (PDict [(PStr ''k'', PObj (Inl ValueError) (Inr ''v''))]) []
       = Inl ValueError
   \<and> content_setter [] sample_bad = Inr [(''_content'', PList [PStr ''<Bad>''])]
   \<and> py_str sample_bad = Inl (OtherException ''RuntimeError'')
   \<and> construct Message sample_now sample_bad [] = Inl (OtherException ''RuntimeError'')
   \<and> content_setter [] (PObj (Inr ''<Odd>'') (Inl ValueError)) = Inr [(''_content'', PList [PStr ''<Odd>''])]
   \<and> (\<exists>d. construct Message sample_now (PObj (Inr ''<Odd>'') (Inl ValueError)) []
          = Inr (PInst Message d))
   \<and> (\<exists>xs. (PTuple [sample_bad] = PList xs \<or> PTuple [sample_bad] = PTuple xs)
          \<and> sequence (map py_str xs) = Inl (OtherException ''RuntimeError''))"
proof -
  let ?key = "PObj (Inl (OtherException ''KeyError'')) (Inr ''x'')"
  let ?int = "PObj (Inl (NonException ''KeyboardInterrupt'')) (Inr ''x'')"
  let ?dict = "PDict [(PStr ''k'', PObj (Inl ValueError) (Inr ''v''))]"
  let ?odd = "PObj (Inr ''<Odd>'') (Inl ValueError)"
  have k: "''content'' \<notin> fst ` set ([] :: (string \<times> pyval) list)" by simp
  have a: "other_class ?key \<and> py_repr ?key = Inl (OtherException ''KeyError'')
      \<and> is_Exception (OtherException ''KeyError'')" by simp
  have b: "other_class ?int \<and> py_repr ?int = Inl (NonException ''KeyboardInterrupt'')
      \<and> \<not> is_Exception (NonException ''KeyboardInterrupt'')" by simp
  have c: "sequence (map py_str [sample_bad]) = Inl (OtherException ''RuntimeError'')"
    by code_simp
  have d: "py_str ?dict = Inl ValueError" by code_simp
  have e1: "content_setter [] sample_bad = Inr [(''_content'', PList [PStr ''<Bad>''])]"
    by code_simp
  have e2: "py_str sample_bad = Inl (OtherException ''RuntimeError'')" by code_simp
  have f1: "content_setter [] ?odd = Inr [(''_content'', PList [PStr ''<Odd>''])]" by code_simp
  have f2: "py_str ?odd = Inl ValueError" by simp
  have g1: "\<not> other_class (PTuple [sample_bad])" by simp
  have g2: "py_str (PTuple [sample_bad]) = Inr ''(<Bad>,)''" by code_simp
  have 1: "construct Message sample_now ?key [] = Inl TypeError"
    using construct_errors[where content = ?key and e = "OtherException ''KeyError''"
        and c = Message and now = sample_now and kwargs = "[]"] a by blast
  have 2: "construct Message sample_now ?int [] = Inl (NonException ''KeyboardInterrupt'')"
    using construct_errors[where content = ?int and x = "NonException ''KeyboardInterrupt''"
        and c = Message and now = sample_now and kwargs = "[]"] b by blast
  have 3: "(\<exists>self. construct Message sample_now PNone [] = Inr (PInst Message self))
      \<and> (\<exists>self. construct Message sample_now (PStr ''hi'') [] = Inr (PInst Message self))"
    using construct_errors[where c = Message and now = sample_now and kwargs = "[]"
        and s = "''hi''"] k by blast
  have 4: "construct Message sample_now (PTuple [sample_bad]) [] = Inl (OtherException ''RuntimeError'')"
    using construct_errors[where content = "PTuple [sample_bad]" and xs = "[sample_bad]"
        and x = "OtherException ''RuntimeError''"
        and c = Message and now = sample_now and kwargs = "[]"] c by blast
  have 5: "construct Message sample_now ?dict [] = Inl ValueError"
    using construct_errors[where content = ?dict
        and kvs = "[(PStr ''k'', PObj (Inl ValueError) (Inr ''v''))]" and x = ValueError
        and c = Message and now = sample_now and kwargs = "[]"] d by blast
  have 6: "construct Message sample_now sample_bad [] = Inl (OtherException ''RuntimeError'')"
    using construct_errors[where content = sample_bad and self = "[]"
        and self' = "[(''_content'', PList [PStr ''<Bad>''])]"
        and x = "OtherException ''RuntimeError''"
        and c = Message and now = sample_now and kwargs = "[]"] e1 e2 by blast
  have 7: "\<exists>d. construct Message sample_now ?odd [] = Inr (PInst Message d)"
    using construct_errors[where content = ?odd and self = "[]"
        and self' = "[(''_content'', PList [PStr ''<Odd>''])]"
        and c = Message and now = sample_now and kwargs = "[]"] f1 f2 k by blast
  have 8: "\<exists>xs. (PTuple [sample_bad] = PList xs \<or> PTuple [sample_bad] = PTuple xs)
          \<and> sequence (map py_str xs) = Inl (OtherException ''RuntimeError'')"
    using construct_errors[where content = "PTuple [sample_bad]"
        and x = "OtherException ''RuntimeError''"
        and c = Message and now = sample_now and kwargs = "[]"] 4 k g1 g2 by auto
  from 1 2 3 4 5 6 7 8 c d e1 e2 f1 show ?thesis by blast
qed

text \<open>
  C8, as stated, fails on a list with an element whose \<^verbatim>\<open>__str__\<close> raises
  \<^verbatim>\<open>RuntimeError\<close>: the list comprehension of line 53 is outside the
  \<^verbatim>\<open>try\<close>, and the constructor raises \<^verbatim>\<open>RuntimeError\<close>, not \<^verbatim>\<open>TypeError\<close>.
\<close>

theorem error_of_element_is_not_converted:
  "construct Message sample_now (PList [sample_bad]) [] = Inl (OtherException ''RuntimeError'')"
  by code_simp

lemma str_join_lines: "str_join [] (PList (map PStr ls)) = Inr (concat ls)"
  by (simp add: str_join_def sequence_the_str[unfolded map_map] join_no_sep)

text \<open>
  C9. For every string \<open>s\<close>, the message constructed from \<open>s\<close> exists and
  \<^verbatim>\<open>as_str(sanitized=False)\<close> on it returns exactly \<open>s\<close>: the lines kept in
  \<^verbatim>\<open>content_with_format\<close> concatenate to the string. The keyword arguments are any
  that do not assign \<^verbatim>\<open>content_with_format\<close> (and do not name \<^verbatim>\<open>content\<close>, which
  Python binds to the parameter).
\<close>

theorem as_str_roundtrip:
  assumes "''content'' \<notin> fst ` set kwargs" and "''content_with_format'' \<notin> fst ` set kwargs"
  shows "\<exists>self. MessageMixin_init now (PStr s) kwargs = Inr self \<and> as_str self False = Inr s"
proof -
  let ?self1 = "AList.update ''content_with_format'' (PList (map PStr (splitlines_keepends s)))
     (AList.update ''_content'' (PList (map PStr (split s)))
        [(''author'', PStr ''anonymous''), (''created'', now), (''client'', PNone)])"
  from setattrs_total[OF assms(1)] obtain self where rest: "setattrs ?self1 kwargs = Inr self"
    by blast
  have run: "MessageMixin_init now (PStr s) kwargs = Inr self"
    unfolding init_cases using rest by simp
  have "map_of self ''content_with_format'' = Some (PList (map PStr (splitlines_keepends s)))"
    using setattrs_frame[OF rest, of "''content_with_format''"] assms
    by (simp add: update_conv')
  then have "as_str self False = Inr s"
    by (simp add: as_str_def getattr_def str_join_lines concat_splitlines_keepends)
  with run show ?thesis by blast
qed

theorem as_str_roundtrip_witness:
  "''content'' \<notin> fst ` set [(''author'', PStr ''bob'')]
   \<and> ''content_with_format'' \<notin> fst ` set [(''author'', PStr ''bob'')]
   \<and> (\<exists>self. MessageMixin_init sample_now (PStr ''line1\<newline>line2\<newline>'')
                 [(''author'', PStr ''bob'')] = Inr self
             \<and> as_str self False = Inr ''line1\<newline>line2\<newline>'')"
proof -
  have k1: "''content'' \<notin> fst ` set [(''author'', PStr ''bob'')]" by simp
  have k2: "''content_with_format'' \<notin> fst ` set [(''author'', PStr ''bob'')]" by simp
  from as_str_roundtrip[OF k1 k2, of sample_now "''line1\<newline>line2\<newline>''"] k1 k2
  show ?thesis by blast
qed

text \<open>
  C10. The keyword arguments are applied last, so each of them is what a read of its
  name returns on the constructed instance, also when the name is one of the
  attributes \<^verbatim>\<open>__init__\<close> has set before (\<^verbatim>\<open>author\<close>, \<^verbatim>\<open>created\<close>,
  \<^verbatim>\<open>client\<close>, \<^verbatim>\<open>content_with_format\<close>): a keyword \<^verbatim>\<open>author\<close> replaces
  \<^verbatim>\<open>"anonymous"\<close>. The keyword arguments are those of a Python call: each name
  once, and none of them \<^verbatim>\<open>content\<close>.
\<close>

theorem kwargs_overwrite_core_fields:
  assumes "MessageMixin_init now content kwargs = Inr self"
    and "distinct (map fst kwargs)" and "''content'' \<notin> fst ` set kwargs"
    and "(k, v) \<in> set kwargs"
  shows "getattr self k = Inr v"
proof -
  from assms(1) obtain self1 lines where
    rest: "setattrs (AList.update ''content_with_format'' lines self1) kwargs = Inr self"
    by (rule init_Inr)
  have "k \<noteq> ''content''" using assms(3,4) by force
  then show ?thesis using setattrs_stores[OF rest assms(2,3,4)] by (simp add: getattr_def)
qed

theorem kwargs_overwrite_core_fields_witness:
  "MessageMixin_init sample_now (PStr ''hi'')
       [(''author'', PStr ''bob''), (''client'', PStr ''discord''), (''channel'', PStr ''general'')] =
     Inr [(''author'', PStr ''bob''), (''created'', sample_now), (''client'', PStr ''discord''),
          (''_content'', PList [PStr ''hi'']), (''content_with_format'', PList [PStr ''hi'']),
          (''channel'', PStr ''general'')]
   \<and> getattr [(''author'', PStr ''bob''), (''created'', sample_now), (''client'', PStr ''discord''),
          (''_content'', PList [PStr ''hi'']), (''content_with_format'', PList [PStr ''hi'']),
          (''channel'', PStr ''general'')] ''author'' = Inr (PStr ''bob'')"
proof -
  let ?kwargs = "[(''author'', PStr ''bob''), (''client'', PStr ''discord''),
                  (''channel'', PStr ''general'')]"
  have run: "MessageMixin_init sample_now (PStr ''hi'') ?kwargs =
     Inr [(''author'', PStr ''bob''), (''created'', sample_now), (''client'', PStr ''discord''),
          (''_content'', PList [PStr ''hi'']), (''content_with_format'', PList [PStr ''hi'']),
          (''channel'', PStr ''general'')]"
    by code_simp
  have d: "distinct (map fst ?kwargs)" by simp
  have k: "''content'' \<notin> fst ` set ?kwargs" by simp
  have m: "(''author'', PStr ''bob'') \<in> set ?kwargs" by simp
  from kwargs_overwrite_core_fields[OF run d k m] run show ?thesis by blast
qed

subsection \<open>The reply stream\<close>

text \<open>
  C1 (the claim: a stream created from a collection holds its payloads in order).
  The code does otherwise: \<^verbatim>\<open>ReplyStream(collection)\<close> is the empty stream whatever
  the collection is, since line 151 builds a map object and never consumes it.
\<close>

theorem ReplyStream_init_enqueues_nothing:
  "ReplyStream_init (Some c) = \<lparr>queue = []\<rparr>"
  by (simp add: ReplyStream_init_def)

text \<open>
  C2 (the claim: \<^verbatim>\<open>get(block=False)\<close> on an empty stream raises \<^verbatim>\<open>Empty\<close>).
  The code raises at once, but the exception is the \<^verbatim>\<open>IndexError\<close> of
  \<^verbatim>\<open>popleft\<close>, not \<^verbatim>\<open>Empty\<close>.
\<close>

theorem get_nonblocking_on_empty_raises_IndexError:
  "get now \<lparr>queue = []\<rparr> False timeout = (Inl IndexError, \<lparr>queue = []\<rparr>)"
  by (simp add: get_def Queue_priv_get_def)

text \<open>
  C3 (the claim: \<^verbatim>\<open>get(block=True)\<close> on an empty stream waits, and raises
  \<^verbatim>\<open>Empty\<close> only when the timeout has passed). The code reads neither \<open>block\<close>
  nor \<open>timeout\<close>: the call ends at once with \<^verbatim>\<open>IndexError\<close>, whatever the
  timeout is.
\<close>

theorem get_blocking_on_empty_raises_IndexError:
  "get now \<lparr>queue = []\<rparr> True timeout = (Inl IndexError, \<lparr>queue = []\<rparr>)"
  by (simp add: get_def Queue_priv_get_def)

lemma queue_foldl_put: "foldl put self ps = self\<lparr>queue := queue self @ ps\<rparr>"
  by (induction ps arbitrary: self) (simp_all add: put_def Queue_priv_put_def)

lemma construct_Reply: "construct Reply now p [] = Inr r \<Longrightarrow> isinstance_Reply r"
  by (auto simp: construct_def isinstance_Reply_def split: sum.splits)

lemma gets_all:
  assumes "list_all2 (\<lambda>now p. isinstance_Reply p \<or> (\<exists>r. construct Reply now p [] = Inr r)) nows q"
  shows "\<exists>rs. gets nows \<lparr>queue = q\<rparr> = (map Inr rs, \<lparr>queue = []\<rparr>)
     \<and> list_all2 (\<lambda>(now, p) r. isinstance_Reply r \<and>
          (if isinstance_Reply p then r = p else construct Reply now p [] = Inr r)) (zip nows q) rs"
  using assms
proof (induction nows q rule: list_all2_induct)
  case Nil
  then show ?case by simp
next
  case (Cons now nows p q)
  from Cons.IH obtain rs where rs: "gets nows \<lparr>queue = q\<rparr> = (map Inr rs, \<lparr>queue = []\<rparr>)"
    and all: "list_all2 (\<lambda>(now, p) r. isinstance_Reply r \<and>
          (if isinstance_Reply p then r = p else construct Reply now p [] = Inr r)) (zip nows q) rs"
    by blast
  from Cons.hyps(1) obtain r where r: "(if isinstance_Reply p then r = p else construct Reply now p [] = Inr r)"
    by (cases "isinstance_Reply p") auto
  then have isr: "isinstance_Reply r" by (auto dest: construct_Reply split: if_splits)
  have step: "get now \<lparr>queue = p # q\<rparr> True PNone = (Inr r, \<lparr>queue = q\<rparr>)"
    using r by (auto simp: get_def Queue_priv_get_def split: if_splits)
  have "gets (now # nows) \<lparr>queue = p # q\<rparr> = (map Inr (r # rs), \<lparr>queue = []\<rparr>)"
    using step rs by simp
  moreover have "list_all2 (\<lambda>(now, p) r. isinstance_Reply r \<and>
          (if isinstance_Reply p then r = p else construct Reply now p [] = Inr r))
       (zip (now # nows) (p # q)) (r # rs)"
    using all r isr by simp
  ultimately show ?case by blast
qed

text \<open>
  C4. On a stream created empty, after \<open>put\<close> of the payloads \<open>ps\<close> in this order
  by one producer, as many calls of \<^verbatim>\<open>get()\<close> return, in the same order, one
  \<^verbatim>\<open>Reply\<close> per payload and leave the stream empty: a payload that is a
  \<^verbatim>\<open>Reply\<close> comes back as it is, any other payload \<open>p\<close> comes back as the new
  \<^verbatim>\<open>Reply(p)\<close>. The payloads are those of the data model: a \<^verbatim>\<open>Reply\<close>, or a value
  that \<^verbatim>\<open>Reply\<close> can be constructed from. \<open>nows ! i\<close> is the clock at the call
  number \<open>i\<close>.
\<close>

theorem put_then_get_is_fifo:
  assumes "length nows = length ps"
    and "\<forall>i<length ps. isinstance_Reply (ps ! i) \<or> (\<exists>r. construct Reply (nows ! i) (ps ! i) [] = Inr r)"
  shows "\<exists>rs. gets nows (foldl put (ReplyStream_init None) ps) = (map Inr rs, \<lparr>queue = []\<rparr>)
     \<and> length rs = length ps
     \<and> (\<forall>i<length ps. isinstance_Reply (rs ! i) \<and>
          (if isinstance_Reply (ps ! i) then rs ! i = ps ! i
           else construct Reply (nows ! i) (ps ! i) [] = Inr (rs ! i)))"
proof -
  have "list_all2 (\<lambda>now p. isinstance_Reply p \<or> (\<exists>r. construct Reply now p [] = Inr r)) nows ps"
    using assms by (simp add: list_all2_conv_all_nth)
  from gets_all[OF this] obtain rs where
    g: "gets nows \<lparr>queue = ps\<rparr> = (map Inr rs, \<lparr>queue = []\<rparr>)"
    and all: "list_all2 (\<lambda>(now, p) r. isinstance_Reply r \<and>
          (if isinstance_Reply p then r = p else construct Reply now p [] = Inr r)) (zip nows ps) rs"
    by blast
  have q: "foldl put (ReplyStream_init None) ps = \<lparr>queue = ps\<rparr>"
    by (simp add: queue_foldl_put ReplyStream_init_def)
  from all have len: "length rs = length ps" using assms(1) by (auto dest: list_all2_lengthD)
  have "\<forall>i<length ps. isinstance_Reply (rs ! i) \<and>
          (if isinstance_Reply (ps ! i) then rs ! i = ps ! i
           else construct Reply (nows ! i) (ps ! i) [] = Inr (rs ! i))"
  proof (intro allI impI)
    fix i assume i: "i < length ps"
    then have "i < length (zip nows ps)" using assms(1) by simp
    from list_all2_nthD[OF all this] i assms(1)
    show "isinstance_Reply (rs ! i) \<and>
          (if isinstance_Reply (ps ! i) then rs ! i = ps ! i
           else construct Reply (nows ! i) (ps ! i) [] = Inr (rs ! i))"
      by simp
  qed
  with g q len show ?thesis by simp
qed

theorem put_then_get_is_fifo_witness:
  "length [sample_now, sample_now] = length [PStr ''one'', PInst Reply [(''author'', PStr ''bob'')]]
   \<and> construct Reply sample_now (PStr ''one'') [] =
       Inr (PInst Reply [(''author'', PStr ''anonymous''), (''created'', sample_now),
         (''client'', PNone), (''_content'', PList [PStr ''one'']),
         (''content_with_format'', PList [PStr ''one''])])
   \<and> isinstance_Reply (PInst Reply [(''author'', PStr ''bob'')])
   \<and> gets [sample_now, sample_now]
        (foldl put (ReplyStream_init None) [PStr ''one'', PInst Reply [(''author'', PStr ''bob'')]])
      = ([Inr (PInst Reply [(''author'', PStr ''anonymous''), (''created'', sample_now),
            (''client'', PNone), (''_content'', PList [PStr ''one'']),
            (''content_with_format'', PList [PStr ''one''])]),
          Inr (PInst Reply [(''author'', PStr ''bob'')])],
         \<lparr>queue = []\<rparr>)"
proof -
  let ?nows = "[sample_now, sample_now]"
  let ?ps = "[PStr ''one'', PInst Reply [(''author'', PStr ''bob'')]]"
  let ?r = "PInst Reply [(''author'', PStr ''anonymous''), (''created'', sample_now),
         (''client'', PNone), (''_content'', PList [PStr ''one'']),
         (''content_with_format'', PList [PStr ''one''])]"
  have len: "length ?nows = length ?ps" by simp
  have c: "construct Reply sample_now (PStr ''one'') [] = Inr ?r" by code_simp
  have n: "\<not> isinstance_Reply (PStr ''one'')" by code_simp
  have i: "isinstance_Reply (PInst Reply [(''author'', PStr ''bob'')])" by code_simp
  have conv: "\<forall>i<length ?ps. isinstance_Reply (?ps ! i)
      \<or> (\<exists>r. construct Reply (?nows ! i) (?ps ! i) [] = Inr r)"
    using c i by (simp add: All_less_Suc)
  from put_then_get_is_fifo[OF len conv] obtain rs where
    g: "gets ?nows (foldl put (ReplyStream_init None) ?ps) = (map Inr rs, \<lparr>queue = []\<rparr>)"
    and l: "length rs = length ?ps"
    and a: "\<forall>i<length ?ps. isinstance_Reply (rs ! i) \<and>
          (if isinstance_Reply (?ps ! i) then rs ! i = ?ps ! i
           else construct Reply (?nows ! i) (?ps ! i) [] = Inr (rs ! i))"
    by blast
  from a c n i have "rs ! 0 = ?r" and "rs ! Suc 0 = PInst Reply [(''author'', PStr ''bob'')]"
    by (simp_all add: All_less_Suc)
  with l have "rs = [?r, PInst Reply [(''author'', PStr ''bob'')]]"
    by (cases rs; cases "tl rs") auto
  with g len c i show ?thesis by simp
qed


end
